theory Spec2Isabelle
  imports Main "HOL-Library.Word"
begin

section \<open>Memory model shared by both source files\<close>

text \<open>
  Both files work through raw pointers: \<open>skein384.cpp\<close> through an opaque \<open>void*\<close> context
  handle, \<open>ZrtpUserCallback.h\<close> through the stored \<open>ost::ZrtpQueue*\<close>. A pointer is either
  null or an address into a store of objects. A store is a list of cells; the address of a
  cell is its index, a deleted object leaves the cell empty. What C++ leaves undefined
  (dereferencing a null, freed or wild pointer, reading or writing past a buffer, indexing a
  vector out of range, leaving a value-returning function without \<open>return\<close>) is a
  \<open>fault\<close> value of the model, so that every such path is a visible branch.
\<close>

datatype fault =
    NullDeref
  | UseAfterFree
  | WildPointer
  | BufferOverread
  | BufferOverflow
  | IndexOutOfRange
  | NoReturnValue

datatype voidptr = nullptr | Addr nat

type_synonym 'a store = "'a option list"

definition deref :: "'a store \<Rightarrow> voidptr \<Rightarrow> fault + (nat \<times> 'a)" where
  "deref s p =
     (case p of
        nullptr \<Rightarrow> Inl NullDeref
      | Addr a \<Rightarrow>
          if a < length s
          then (case s ! a of None \<Rightarrow> Inl UseAfterFree | Some obj \<Rightarrow> Inr (a, obj))
          else Inl WildPointer)"

type_synonym uint8_t = "8 word"
type_synonym uint64_t = "64 word"
type_synonym int32 = "32 word"
type_synonym bytes = "uint8_t list"

section \<open>skein384.cpp\<close>

subsection \<open>The Botan hash object\<close>

text \<open>
  \<open>Botan::HashFunction\<close> belongs to the Botan library, not to this repository. The model
  keeps what its interface documents: \<open>create\<close> yields a new object for an algorithm name
  (the library the repository links provides Skein-512), \<open>update\<close> absorbs \<open>dataLength\<close>
  bytes read from \<open>data\<close>, \<open>clear\<close> forgets what was absorbed, and \<open>final\<close> writes
  the digest of everything absorbed since creation or the last reset to the output pointer
  and resets the object. The digest function of each algorithm name is the parameter
  \<open>botan\<close> of every operation that finalises; nothing is assumed about it but what a
  theorem states. A buffer passed by pointer is the list of the bytes that may be accessed
  through the pointer: reading or writing more is a fault.
\<close>

type_synonym botan = "string \<Rightarrow> bytes \<Rightarrow> bytes"

record HashFunction =
  algo :: string
  absorbed :: bytes

definition HashFunction_create :: "string \<Rightarrow> HashFunction" where
  "HashFunction_create name = \<lparr>algo = name, absorbed = []\<rparr>"

definition HashFunction_update :: "HashFunction \<Rightarrow> bytes \<Rightarrow> uint64_t \<Rightarrow> fault + HashFunction" where
  "HashFunction_update h buf dataLength =
     (if unat dataLength \<le> length buf
      then Inr (h\<lparr>absorbed := absorbed h @ take (unat dataLength) buf\<rparr>)
      else Inl BufferOverread)"

definition HashFunction_clear :: "HashFunction \<Rightarrow> HashFunction" where
  "HashFunction_clear h = h\<lparr>absorbed := []\<rparr>"

definition HashFunction_final ::
  "botan \<Rightarrow> HashFunction \<Rightarrow> bytes \<Rightarrow> fault + (bytes \<times> HashFunction)" where
  "HashFunction_final botan h out =
     (let d = botan (algo h) (absorbed h) in
      if length d \<le> length out
      then Inr (d @ drop (length d) out, HashFunction_clear h)
      else Inl BufferOverflow)"

subsection \<open>Context and output array\<close>

text \<open>\<open>struct hashCtx\<close>: the \<open>unique_ptr\<close> member is empty (\<open>None\<close>) or owns a hash object.\<close>

record hashCtx =
  hash :: "HashFunction option"

definition hash_ptr :: "hashCtx \<Rightarrow> fault + HashFunction" where
  "hash_ptr c = (case hash c of None \<Rightarrow> Inl NullDeref | Some h \<Rightarrow> Inr h)"

text \<open>
  Modelled from the spec: \<open>zrtp::RetainedSecArray\<close> and \<open>SHA384_DIGEST_SIZE\<close> are
  declared in headers that are not among the source files. The functions use two members
  of the array: \<open>data()\<close>, the pointer to its byte buffer, and \<open>size(n)\<close>, which sets
  its size field. \<open>SHA384_DIGEST_SIZE\<close> is the byte length of the 384-bit digest the
  specification names for this hash: 48.
\<close>

record RetainedSecArray =
  sec_data :: bytes
  sec_size :: nat

definition SHA384_DIGEST_SIZE :: nat where
  "SHA384_DIGEST_SIZE = 48"

subsection \<open>One-shot hashing\<close>

definition skein384 :: "botan \<Rightarrow> bytes \<Rightarrow> uint64_t \<Rightarrow> bytes \<Rightarrow> fault + bytes" where
  "skein384 botan buf dataLength digest =
     (let h = HashFunction_create ''Skein-512(384)'' in
      case HashFunction_update h buf dataLength of
        Inl e \<Rightarrow> Inl e
      | Inr h1 \<Rightarrow>
          (case HashFunction_final botan h1 digest of
             Inl e \<Rightarrow> Inl e
           | Inr (digest', h2) \<Rightarrow> Inr digest'))"

text \<open>
  The loop of the multi-segment overload. \<open>segs[i]\<close> is in range by the loop condition;
  \<open>dataLength[i]\<close> is an unchecked vector access.
\<close>

function skein384_loop ::
  "HashFunction \<Rightarrow> bytes list \<Rightarrow> uint64_t list \<Rightarrow> nat \<Rightarrow> fault + HashFunction" where
  "skein384_loop h segs dataLength i =
     (if i < length segs
      then (if i < length dataLength
            then (case HashFunction_update h (segs ! i) (dataLength ! i) of
                    Inl e \<Rightarrow> Inl e
                  | Inr h' \<Rightarrow> skein384_loop h' segs dataLength (i + 1))
            else Inl IndexOutOfRange)
      else Inr h)"
  by pat_completeness auto
termination
  by (relation "measure (\<lambda>(h, segs, dataLength, i). length segs - i)") auto

declare skein384_loop.simps [simp del]

definition skein384_vec :: "botan \<Rightarrow> bytes list \<Rightarrow> uint64_t list \<Rightarrow> bytes \<Rightarrow> fault + bytes" where
  "skein384_vec botan segs dataLength digest =
     (let h = HashFunction_create ''Skein-512(384)'' in
      case skein384_loop h segs dataLength 0 of
        Inl e \<Rightarrow> Inl e
      | Inr h1 \<Rightarrow>
          (case HashFunction_final botan h1 digest of
             Inl e \<Rightarrow> Inl e
           | Inr (digest', h2) \<Rightarrow> Inr digest'))"

subsection \<open>Context-based hashing\<close>

definition createSkein384Context :: "hashCtx store \<Rightarrow> voidptr \<times> hashCtx store" where
  "createSkein384Context s =
     (Addr (length s), s @ [Some \<lparr>hash = Some (HashFunction_create ''Skein-512(384)'')\<rparr>])"

text \<open>
  \<open>closeSkein384Context\<close>: the guarded block finalises into \<open>digestOut\<close>; the two
  statements after it, \<open>hd->hash.reset()\<close> and \<open>delete hd\<close>, are outside the guard.
\<close>

definition closeSkein384Context ::
  "botan \<Rightarrow> voidptr \<Rightarrow> RetainedSecArray \<Rightarrow> hashCtx store \<Rightarrow> fault + (RetainedSecArray \<times> hashCtx store)" where
  "closeSkein384Context botan ctx digestOut s =
     (case (if ctx \<noteq> nullptr
            then (case deref s ctx of
                    Inl e \<Rightarrow> Inl e
                  | Inr (a, c) \<Rightarrow>
                      (case hash_ptr c of
                         Inl e \<Rightarrow> Inl e
                       | Inr h \<Rightarrow>
                           (case HashFunction_final botan h (sec_data digestOut) of
                              Inl e \<Rightarrow> Inl e
                            | Inr (out, h') \<Rightarrow>
                                Inr (digestOut\<lparr>sec_data := out, sec_size := SHA384_DIGEST_SIZE\<rparr>,
                                     s[a := Some (c\<lparr>hash := Some h'\<rparr>)]))))
            else Inr (digestOut, s)) of
        Inl e \<Rightarrow> Inl e
      | Inr (digestOut', s1) \<Rightarrow>
          (case deref s1 ctx of
             Inl e \<Rightarrow> Inl e
           | Inr (a, c) \<Rightarrow>
               (let s2 = s1[a := Some (c\<lparr>hash := None\<rparr>)] in
                Inr (digestOut', s2[a := None]))))"

definition initializeSkein384Context ::
  "voidptr \<Rightarrow> hashCtx store \<Rightarrow> fault + (voidptr \<times> hashCtx store)" where
  "initializeSkein384Context ctx s =
     (if ctx \<noteq> nullptr
      then (case deref s ctx of
              Inl e \<Rightarrow> Inl e
            | Inr (a, c) \<Rightarrow>
                (case hash c of
                   None \<Rightarrow>
                     Inr (ctx, s[a := Some (c\<lparr>hash := Some (HashFunction_create ''Skein-512(384)'')\<rparr>)])
                 | Some h \<Rightarrow>
                     Inr (ctx, s[a := Some (c\<lparr>hash := Some (HashFunction_clear h)\<rparr>)])))
      else Inr (ctx, s))"

definition finalizeSkein384Context ::
  "botan \<Rightarrow> voidptr \<Rightarrow> RetainedSecArray \<Rightarrow> hashCtx store \<Rightarrow> fault + (RetainedSecArray \<times> hashCtx store)" where
  "finalizeSkein384Context botan ctx digestOut s =
     (case deref s ctx of
        Inl e \<Rightarrow> Inl e
      | Inr (a, c) \<Rightarrow>
          (case hash_ptr c of
             Inl e \<Rightarrow> Inl e
           | Inr h \<Rightarrow>
               (case HashFunction_final botan h (sec_data digestOut) of
                  Inl e \<Rightarrow> Inl e
                | Inr (out, h') \<Rightarrow>
                    Inr (digestOut\<lparr>sec_data := out, sec_size := SHA384_DIGEST_SIZE\<rparr>,
                         s[a := Some (c\<lparr>hash := Some h'\<rparr>)]))))"

definition skein384Ctx ::
  "voidptr \<Rightarrow> bytes \<Rightarrow> uint64_t \<Rightarrow> hashCtx store \<Rightarrow> fault + hashCtx store" where
  "skein384Ctx ctx buf dataLength s =
     (case deref s ctx of
        Inl e \<Rightarrow> Inl e
      | Inr (a, c) \<Rightarrow>
          (case hash_ptr c of
             Inl e \<Rightarrow> Inl e
           | Inr h \<Rightarrow>
               (case HashFunction_update h buf dataLength of
                  Inl e \<Rightarrow> Inl e
                | Inr h' \<Rightarrow> Inr (s[a := Some (c\<lparr>hash := Some h'\<rparr>)]))))"

text \<open>
  The loop of the multi-segment update. The handle is dereferenced inside the loop body,
  once per segment, before the arguments of \<open>update\<close> are evaluated.
\<close>

function skein384Ctx_loop ::
  "voidptr \<Rightarrow> bytes list \<Rightarrow> uint64_t list \<Rightarrow> nat \<Rightarrow> hashCtx store \<Rightarrow> fault + hashCtx store" where
  "skein384Ctx_loop ctx segs dataLength i s =
     (if i < length segs
      then (case deref s ctx of
              Inl e \<Rightarrow> Inl e
            | Inr (a, c) \<Rightarrow>
                (case hash_ptr c of
                   Inl e \<Rightarrow> Inl e
                 | Inr h \<Rightarrow>
                     if i < length dataLength
                     then (case HashFunction_update h (segs ! i) (dataLength ! i) of
                             Inl e \<Rightarrow> Inl e
                           | Inr h' \<Rightarrow>
                               skein384Ctx_loop ctx segs dataLength (i + 1)
                                 (s[a := Some (c\<lparr>hash := Some h'\<rparr>)]))
                     else Inl IndexOutOfRange))
      else Inr s)"
  by pat_completeness auto
termination
  by (relation "measure (\<lambda>(ctx, segs, dataLength, i, s). length segs - i)") auto

declare skein384Ctx_loop.simps [simp del]

definition skein384Ctx_vec ::
  "voidptr \<Rightarrow> bytes list \<Rightarrow> uint64_t list \<Rightarrow> hashCtx store \<Rightarrow> fault + hashCtx store" where
  "skein384Ctx_vec ctx segs dataLength s = skein384Ctx_loop ctx segs dataLength 0 s"

section \<open>ZrtpUserCallback.h\<close>

subsection \<open>The queue behind the callback\<close>

text \<open>
  Modelled from the spec: the class \<open>ost::ZrtpQueue\<close> (\<open>libzrtpcpp/ZrtpQueue.h\<close>) is
  not among the source files; the header only calls its methods. A queue object records
  every method invoked on it, with the arguments it received, in \<open>received\<close>. Of its two
  getters the spec and the doc comments of the header say that they yield the string "0"
  as long as ZRTP was not started; \<open>started\<close>, \<open>helloHash\<close> and \<open>sasData\<close> hold what
  they yield afterwards. A \<open>uint8*\<close> argument is the pointer value.
\<close>

datatype queue_call =
    Q_setEnableZrtp bool
  | Q_SASVerified
  | Q_resetSASVerified
  | Q_goClearOk
  | Q_requestGoClear
  | Q_setSigsSecret voidptr
  | Q_setSrtpsSecret voidptr
  | Q_setOtherSecret voidptr int32
  | Q_getHelloHash
  | Q_getSasData

record ZrtpQueue =
  started :: bool
  helloHash :: string
  sasData :: string
  received :: "queue_call list"

definition ZrtpQueue_invoke :: "queue_call \<Rightarrow> ZrtpQueue \<Rightarrow> ZrtpQueue" where
  "ZrtpQueue_invoke c q = q\<lparr>received := received q @ [c]\<rparr>"

definition ZrtpQueue_getHelloHash :: "ZrtpQueue \<Rightarrow> string \<times> ZrtpQueue" where
  "ZrtpQueue_getHelloHash q =
     (if started q then helloHash q else ''0'', ZrtpQueue_invoke Q_getHelloHash q)"

definition ZrtpQueue_getSasData :: "ZrtpQueue \<Rightarrow> string \<times> ZrtpQueue" where
  "ZrtpQueue_getSasData q =
     (if started q then sasData q else ''0'', ZrtpQueue_invoke Q_getSasData q)"

subsection \<open>The class\<close>

record ZrtpUserCallback =
  zrtpQueue :: voidptr

text \<open>The constructor stores the pointer; the destructor's body is empty.\<close>

definition ZrtpUserCallback_ctor :: "voidptr \<Rightarrow> ZrtpUserCallback" where
  "ZrtpUserCallback_ctor queue = \<lparr>zrtpQueue = queue\<rparr>"

definition ZrtpUserCallback_dtor ::
  "ZrtpUserCallback \<Rightarrow> ZrtpQueue store \<Rightarrow> ZrtpUserCallback \<times> ZrtpQueue store" where
  "ZrtpUserCallback_dtor this w = (this, w)"

text \<open>
  \<open>zrtpQueue->m(args)\<close>: the call goes through the stored pointer. Each control method
  returns the callback object as it is after the call, and the store of queues.
\<close>

definition via_zrtpQueue ::
  "ZrtpUserCallback \<Rightarrow> queue_call \<Rightarrow> ZrtpQueue store \<Rightarrow> fault + (ZrtpUserCallback \<times> ZrtpQueue store)" where
  "via_zrtpQueue this c w =
     (case deref w (zrtpQueue this) of
        Inl e \<Rightarrow> Inl e
      | Inr (a, q) \<Rightarrow> Inr (this, w[a := Some (ZrtpQueue_invoke c q)]))"

definition enableZrtp ::
  "ZrtpUserCallback \<Rightarrow> bool \<Rightarrow> ZrtpQueue store \<Rightarrow> fault + (ZrtpUserCallback \<times> ZrtpQueue store)" where
  "enableZrtp this onOff w = via_zrtpQueue this (Q_setEnableZrtp onOff) w"

definition SASVerified ::
  "ZrtpUserCallback \<Rightarrow> ZrtpQueue store \<Rightarrow> fault + (ZrtpUserCallback \<times> ZrtpQueue store)" where
  "SASVerified this w = via_zrtpQueue this Q_SASVerified w"

definition resetSASVerified ::
  "ZrtpUserCallback \<Rightarrow> ZrtpQueue store \<Rightarrow> fault + (ZrtpUserCallback \<times> ZrtpQueue store)" where
  "resetSASVerified this w = via_zrtpQueue this Q_resetSASVerified w"

definition goClearOk ::
  "ZrtpUserCallback \<Rightarrow> ZrtpQueue store \<Rightarrow> fault + (ZrtpUserCallback \<times> ZrtpQueue store)" where
  "goClearOk this w = via_zrtpQueue this Q_goClearOk w"

definition requestGoClear ::
  "ZrtpUserCallback \<Rightarrow> ZrtpQueue store \<Rightarrow> fault + (ZrtpUserCallback \<times> ZrtpQueue store)" where
  "requestGoClear this w = via_zrtpQueue this Q_requestGoClear w"

definition setSigsSecret ::
  "ZrtpUserCallback \<Rightarrow> voidptr \<Rightarrow> ZrtpQueue store \<Rightarrow> fault + (ZrtpUserCallback \<times> ZrtpQueue store)" where
  "setSigsSecret this secret w = via_zrtpQueue this (Q_setSigsSecret secret) w"

definition setSrtpsSecret ::
  "ZrtpUserCallback \<Rightarrow> voidptr \<Rightarrow> ZrtpQueue store \<Rightarrow> fault + (ZrtpUserCallback \<times> ZrtpQueue store)" where
  "setSrtpsSecret this secret w = via_zrtpQueue this (Q_setSrtpsSecret secret) w"

definition setOtherSecret ::
  "ZrtpUserCallback \<Rightarrow> voidptr \<Rightarrow> int32 \<Rightarrow> ZrtpQueue store \<Rightarrow> fault + (ZrtpUserCallback \<times> ZrtpQueue store)" where
  "setOtherSecret this secret len w = via_zrtpQueue this (Q_setOtherSecret secret len) w"

text \<open>
  The two getters call the queue's getter as an expression statement and have no
  \<open>return\<close>: the string the queue yields is dropped and control reaches the closing
  brace of a function declared to return \<open>std::string\<close>.
\<close>

definition getHelloHash ::
  "ZrtpUserCallback \<Rightarrow> ZrtpQueue store \<Rightarrow> fault + (string \<times> ZrtpUserCallback \<times> ZrtpQueue store)" where
  "getHelloHash this w =
     (case deref w (zrtpQueue this) of
        Inl e \<Rightarrow> Inl e
      | Inr (a, q) \<Rightarrow> (case ZrtpQueue_getHelloHash q of (dropped, q') \<Rightarrow> Inl NoReturnValue))"

definition getSasData ::
  "ZrtpUserCallback \<Rightarrow> ZrtpQueue store \<Rightarrow> fault + (string \<times> ZrtpUserCallback \<times> ZrtpQueue store)" where
  "getSasData this w =
     (case deref w (zrtpQueue this) of
        Inl e \<Rightarrow> Inl e
      | Inr (a, q) \<Rightarrow> (case ZrtpQueue_getSasData q of (dropped, q') \<Rightarrow> Inl NoReturnValue))"

section \<open>The go-clear exchange\<close>

text \<open>
  Modelled from the spec: the session state machine that \<open>ZrtpQueue::requestGoClear\<close> and
  \<open>ZrtpQueue::goClearOk\<close> drive is not among the source files. Section 4.1 of the
  specification gives the branch \<open>SecureOn \<rightarrow> GoClearRequested \<rightarrow> Idle\<close> and says that
  secure processing stops on the requester's side immediately on send, and on the
  receiver's side only after the user's confirmation. An endpoint holds its state, whether
  it protects outbound media, and whether a go-clear of the peer awaits the user. The
  events are the user's request (\<open>requestGoClear\<close>), the peer's GoClear message, the
  user's confirmation (\<open>goClearOk\<close>) and the peer's ClearAck; the outputs are the two
  messages and the \<open>confirmGoClear\<close> notification to the host.
\<close>

datatype session_state = SecureOn | GoClearRequested | Idle

record endpoint =
  state :: session_state
  protecting :: bool
  confirm_pending :: bool

datatype gc_event = UserRequestGoClear | PeerGoClear | UserGoClearOk | PeerClearAck

datatype gc_output = SendGoClear | SendClearAck | NotifyConfirmGoClear

fun gc_step :: "endpoint \<Rightarrow> gc_event \<Rightarrow> endpoint \<times> gc_output list" where
  "gc_step e UserRequestGoClear =
     (if state e = SecureOn
      then (e\<lparr>state := GoClearRequested, protecting := False\<rparr>, [SendGoClear])
      else (e, []))"
| "gc_step e PeerGoClear =
     (if state e = SecureOn
      then (e\<lparr>confirm_pending := True\<rparr>, [NotifyConfirmGoClear])
      else (e, []))"
| "gc_step e UserGoClearOk =
     (if confirm_pending e
      then (e\<lparr>state := Idle, protecting := False, confirm_pending := False\<rparr>, [SendClearAck])
      else (e, []))"
| "gc_step e PeerClearAck =
     (if state e = GoClearRequested then (e\<lparr>state := Idle\<rparr>, []) else (e, []))"

fun gc_run :: "endpoint \<Rightarrow> gc_event list \<Rightarrow> endpoint" where
  "gc_run e [] = e"
| "gc_run e (ev # evs) = gc_run (fst (gc_step e ev)) evs"

definition secure_endpoint :: endpoint where
  "secure_endpoint = \<lparr>state = SecureOn, protecting = True, confirm_pending = False\<rparr>"

section \<open>Auxiliary facts\<close>

subsection \<open>Pointers and stores\<close>

lemma deref_nullptr: "deref s nullptr = Inl NullDeref"
  by (simp add: deref_def)

lemma deref_Inr_iff:
  "deref s p = Inr (a, obj) \<longleftrightarrow> p = Addr a \<and> a < length s \<and> s ! a = Some obj"
  by (auto simp: deref_def split: voidptr.splits option.splits)

lemma deref_update_same:
  "a < length s \<Longrightarrow> deref (s[a := Some obj]) (Addr a) = Inr (a, obj)"
  by (simp add: deref_def)

lemma deref_create:
  "deref (snd (createSkein384Context s)) (fst (createSkein384Context s))
     = Inr (length s, \<lparr>hash = Some (HashFunction_create ''Skein-512(384)'')\<rparr>)"
  by (simp add: createSkein384Context_def deref_def)

subsection \<open>The hash object\<close>

lemma unat_len64: "n < 2 ^ 64 \<Longrightarrow> unat (of_nat n :: uint64_t) = n"
  by (simp add: unat_of_nat)

lemma update_exact:
  "length buf < 2 ^ 64 \<Longrightarrow>
   HashFunction_update h buf (of_nat (length buf)) = Inr (h\<lparr>absorbed := absorbed h @ buf\<rparr>)"
  by (simp add: HashFunction_update_def unat_len64)

lemma final_writes:
  assumes "length (botan (algo h) (absorbed h)) = k" and "k \<le> length out"
  shows "\<exists>out'. HashFunction_final botan h out = Inr (out', HashFunction_clear h)
            \<and> length out' = length out
            \<and> take k out' = botan (algo h) (absorbed h)
            \<and> drop k out' = drop k out"
  using assms by (simp add: HashFunction_final_def Let_def)

subsection \<open>A live context\<close>

text \<open>
  On a handle that points to a live context with a hash object, update and finalize reduce
  to the operation of the hash object; update followed by finalize yields what the hash
  object yields for the bytes it has absorbed by then.
\<close>

lemma skein384Ctx_live:
  assumes "deref s ctx = Inr (a, c)" and "hash c = Some h"
  shows "skein384Ctx ctx buf n s =
           (case HashFunction_update h buf n of
              Inl e \<Rightarrow> Inl e
            | Inr h' \<Rightarrow> Inr (s[a := Some (c\<lparr>hash := Some h'\<rparr>)]))"
  using assms by (simp add: skein384Ctx_def hash_ptr_def)

lemma finalize_live:
  assumes "deref s ctx = Inr (a, c)" and "hash c = Some h"
  shows "finalizeSkein384Context botan ctx digestOut s =
           (case HashFunction_final botan h (sec_data digestOut) of
              Inl e \<Rightarrow> Inl e
            | Inr (out, h') \<Rightarrow>
                Inr (digestOut\<lparr>sec_data := out, sec_size := SHA384_DIGEST_SIZE\<rparr>,
                     s[a := Some (c\<lparr>hash := Some h'\<rparr>)]))"
  using assms by (simp add: finalizeSkein384Context_def hash_ptr_def)

lemma finalize_digest:
  assumes "deref s ctx = Inr (a, c)" and "hash c = Some h"
  shows "map_sum id (sec_data \<circ> fst) (finalizeSkein384Context botan ctx digestOut s)
           = map_sum id fst (HashFunction_final botan h (sec_data digestOut))"
  using assms
  by (simp add: finalize_live HashFunction_final_def Let_def)

lemma ctx_then_finalize:
  assumes live: "deref s ctx = Inr (a, c)" and h: "hash c = Some h"
  shows "(case skein384Ctx ctx buf n s of
            Inl e \<Rightarrow> Inl e
          | Inr s1 \<Rightarrow> map_sum id (sec_data \<circ> fst) (finalizeSkein384Context botan ctx digestOut s1))
         = (case HashFunction_update h buf n of
              Inl e \<Rightarrow> Inl e
            | Inr h' \<Rightarrow> map_sum id fst (HashFunction_final botan h' (sec_data digestOut)))"
proof (cases "HashFunction_update h buf n")
  case (Inl e)
  then show ?thesis by (simp add: skein384Ctx_live [OF live h])
next
  case (Inr h')
  from live have ctx: "ctx = Addr a" and len: "a < length s"
    by (simp_all add: deref_Inr_iff)
  let ?s1 = "s[a := Some (c\<lparr>hash := Some h'\<rparr>)]"
  have upd: "skein384Ctx ctx buf n s = Inr ?s1"
    by (simp add: skein384Ctx_live [OF live h] Inr)
  have d1: "deref ?s1 ctx = Inr (a, c\<lparr>hash := Some h'\<rparr>)"
    using len by (simp add: ctx deref_update_same)
  have "map_sum id (sec_data \<circ> fst) (finalizeSkein384Context botan ctx digestOut ?s1)
          = map_sum id fst (HashFunction_final botan h' (sec_data digestOut))"
    by (rule finalize_digest [OF d1]) simp
  with upd Inr show ?thesis by simp
qed

lemma skein384_as_update_final:
  "skein384 botan buf n digest =
     (case HashFunction_update (HashFunction_create ''Skein-512(384)'') buf n of
        Inl e \<Rightarrow> Inl e
      | Inr h' \<Rightarrow> map_sum id fst (HashFunction_final botan h' digest))"
  by (simp add: skein384_def Let_def split: sum.splits prod.splits)

subsection \<open>The two multi-segment loops\<close>

text \<open>
  When every length has a segment that holds as many bytes, the loop of the multi-segment
  \<open>skein384\<close> absorbs the announced bytes of the segments from index \<open>i\<close> on, in
  order. The loop of the multi-segment \<open>skein384Ctx\<close> on two segments does the two
  updates of the hash object one after the other.
\<close>

lemma skein384_loop_absorbs:
  assumes len: "length segs \<le> length lens"
      and fit: "list_all (\<lambda>(seg, n). unat n \<le> length seg) (zip segs lens)"
  shows "skein384_loop h segs lens i
           = Inr (h\<lparr>absorbed := absorbed h
                     @ concat (map (\<lambda>(seg, n). take (unat n) seg) (drop i (zip segs lens)))\<rparr>)"
proof (induction "length segs - i" arbitrary: i h)
  case 0
  then have "\<not> i < length segs" by simp
  then show ?case by (subst skein384_loop.simps) simp
next
  case (Suc k)
  then have i: "i < length segs" by simp
  with len have il: "i < length lens" by simp
  from i il have iz: "i < length (zip segs lens)" by simp
  from fit iz have "unat (lens ! i) \<le> length (segs ! i)"
    by (auto simp: list_all_length)
  then have u: "HashFunction_update h (segs ! i) (lens ! i)
                  = Inr (h\<lparr>absorbed := absorbed h @ take (unat (lens ! i)) (segs ! i)\<rparr>)"
    by (simp add: HashFunction_update_def)
  from Suc.hyps(2) i have k: "k = length segs - Suc i" by simp
  have d: "drop i (zip segs lens) = (segs ! i, lens ! i) # drop (Suc i) (zip segs lens)"
    using iz by (simp add: Cons_nth_drop_Suc [symmetric])
  show ?case
    by (subst skein384_loop.simps) (simp add: i il u Suc.hyps(1) [OF k] d)
qed

lemma two_segments_ctx_loop:
  assumes live: "deref s ctx = Inr (k, c)" and h: "hash c = Some h"
      and ua: "HashFunction_update h a la = Inr ha"
      and ub: "HashFunction_update ha b lb = Inr hab"
  shows "skein384Ctx_vec ctx [a, b] [la, lb] s = Inr (s[k := Some (c\<lparr>hash := Some hab\<rparr>)])"
proof -
  from live have ctx: "ctx = Addr k" and len: "k < length s"
    by (simp_all add: deref_Inr_iff)
  let ?s1 = "s[k := Some (c\<lparr>hash := Some ha\<rparr>)]"
  let ?s2 = "s[k := Some (c\<lparr>hash := Some hab\<rparr>)]"
  have d1: "deref ?s1 ctx = Inr (k, c\<lparr>hash := Some ha\<rparr>)"
    using len by (simp add: ctx deref_update_same)
  have l2: "skein384Ctx_loop ctx [a, b] [la, lb] (Suc (Suc 0)) ?s2 = Inr ?s2"
    by (subst skein384Ctx_loop.simps) simp
  have l1: "skein384Ctx_loop ctx [a, b] [la, lb] (Suc 0) ?s1 = Inr ?s2"
    using l2 by (subst skein384Ctx_loop.simps) (simp add: d1 hash_ptr_def ub)
  show ?thesis
    unfolding skein384Ctx_vec_def
    using l1 by (subst skein384Ctx_loop.simps) (simp add: live hash_ptr_def h ua)
qed

subsection \<open>Calls through the stored queue pointer\<close>

lemma via_zrtpQueue_live:
  "deref w (zrtpQueue this) = Inr (a, q) \<Longrightarrow>
   via_zrtpQueue this c w = Inr (this, w[a := Some (q\<lparr>received := received q @ [c]\<rparr>)])"
  by (simp add: via_zrtpQueue_def ZrtpQueue_invoke_def)

subsection \<open>The go-clear model\<close>

lemma gc_step_keeps_protecting:
  "protecting e \<Longrightarrow> ev \<noteq> UserGoClearOk \<Longrightarrow> ev \<noteq> UserRequestGoClear \<Longrightarrow>
   protecting (fst (gc_step e ev))"
  by (cases ev) simp_all

lemma gc_run_keeps_protecting:
  "protecting e \<Longrightarrow> UserGoClearOk \<notin> set evs \<Longrightarrow> UserRequestGoClear \<notin> set evs \<Longrightarrow>
   protecting (gc_run e evs)"
proof (induction evs arbitrary: e)
  case Nil
  then show ?case by simp
next
  case (Cons ev evs)
  from Cons.prems have "protecting (fst (gc_step e ev))"
    by (intro gc_step_keeps_protecting) auto
  with Cons show ?case by simp
qed

section \<open>The getters of the callback (C1)\<close>

text \<open>
  C1. \<open>getHelloHash\<close> and \<open>getSasData\<close> are documented to return the string of the
  corresponding \<open>ZrtpQueue\<close> method, "0" when ZRTP was not started. Both bodies call the
  queue's method and drop its result: there is no \<open>return\<close> statement. Evaluated on a
  callback whose pointer is the live queue at address 0, ZRTP not started: the queue's
  methods yield "0", the callback's methods yield no value.
\<close>

theorem getters_drop_the_queue_result:
  "getHelloHash \<lparr>zrtpQueue = Addr 0\<rparr>
      [Some \<lparr>started = False, helloHash = [], sasData = [], received = []\<rparr>] = Inl NoReturnValue
   \<and> getSasData \<lparr>zrtpQueue = Addr 0\<rparr>
      [Some \<lparr>started = False, helloHash = [], sasData = [], received = []\<rparr>] = Inl NoReturnValue
   \<and> fst (ZrtpQueue_getHelloHash \<lparr>started = False, helloHash = [], sasData = [], received = []\<rparr>)
       = ''0''
   \<and> fst (ZrtpQueue_getSasData \<lparr>started = False, helloHash = [], sasData = [], received = []\<rparr>)
       = ''0''"
  by (simp add: getHelloHash_def getSasData_def deref_def ZrtpQueue_getHelloHash_def
      ZrtpQueue_getSasData_def)

section \<open>Null context handles (C2, C8)\<close>

text \<open>
  C2. \<open>finalizeSkein384Context\<close> and the single-buffer \<open>skein384Ctx\<close> go through the
  context handle without any check: a null handle is dereferenced. The multi-segment
  \<open>skein384Ctx\<close> has no check either, but it goes through the handle inside its loop: a
  null handle is dereferenced as soon as there is one segment, and with no segment the
  function returns with the store unchanged.
\<close>

theorem null_handle_is_dereferenced:
  "finalizeSkein384Context botan nullptr digestOut s = Inl NullDeref
   \<and> skein384Ctx nullptr buf dataLength s = Inl NullDeref
   \<and> (segs \<noteq> [] \<longrightarrow> skein384Ctx_vec nullptr segs lens s = Inl NullDeref)
   \<and> skein384Ctx_vec nullptr [] lens s = Inr s"
proof -
  have fin: "finalizeSkein384Context botan nullptr digestOut s = Inl NullDeref"
    by (simp add: finalizeSkein384Context_def deref_nullptr)
  have upd: "skein384Ctx nullptr buf dataLength s = Inl NullDeref"
    by (simp add: skein384Ctx_def deref_nullptr)
  have vec: "skein384Ctx_vec nullptr segs lens s = Inl NullDeref" if "segs \<noteq> []"
    using that
    by (subst skein384Ctx_vec_def, subst skein384Ctx_loop.simps) (simp add: deref_nullptr)
  have emp: "skein384Ctx_vec nullptr [] lens s = Inr s"
    by (subst skein384Ctx_vec_def, subst skein384Ctx_loop.simps) simp
  from fin upd vec emp show ?thesis by blast
qed

theorem null_handle_is_dereferenced_witness:
  "finalizeSkein384Context (\<lambda>name msg. replicate 48 0) nullptr
      \<lparr>sec_data = replicate 64 0, sec_size = 0\<rparr> [] = Inl NullDeref
   \<and> skein384Ctx nullptr [1, 2, 3] 3 [] = Inl NullDeref
   \<and> [[1, 2, 3]] \<noteq> ([] :: bytes list)
   \<and> skein384Ctx_vec nullptr [[1, 2, 3]] [3] [] = Inl NullDeref
   \<and> skein384Ctx_vec nullptr [] [3] ([] :: hashCtx store) = Inr []"
  using null_handle_is_dereferenced
    [of "\<lambda>name msg. replicate 48 0" "\<lparr>sec_data = replicate 64 0, sec_size = 0\<rparr>" "[]"
        "[1, 2, 3]" 3 "[[1, 2, 3]]" "[3]"]
  by simp

text \<open>
  With a null handle and an empty segment vector the multi-segment update returns
  normally: the handle is never dereferenced.
\<close>

theorem skein384Ctx_vec_null_empty_returns:
  "skein384Ctx_vec nullptr [] [] ([] :: hashCtx store) = Inr []"
  by (simp add: skein384Ctx_vec_def skein384Ctx_loop.simps)

text \<open>
  C8. \<open>closeSkein384Context\<close> with a null handle: the guard skips the finalisation and
  nothing is written to \<open>digestOut\<close>, but \<open>hd->hash.reset()\<close> after the guard goes
  through the null handle. Evaluated on an empty store and a 64-byte output array.
\<close>

theorem closeSkein384Context_null_faults:
  "closeSkein384Context (\<lambda>name msg. replicate 48 0) nullptr
     \<lparr>sec_data = replicate 64 0, sec_size = 0\<rparr> [] = Inl NullDeref"
  by (simp add: closeSkein384Context_def deref_nullptr)

section \<open>Incremental hashing (C3)\<close>

text \<open>
  C3. For byte sequences \<open>a\<close> and \<open>b\<close> whose lengths add up to a \<open>uint64_t\<close>, hashing
  them as two segments gives the digest of the concatenated buffer \<open>a @ b\<close> hashed by the
  single-buffer \<open>skein384\<close>. So does the multi-segment \<open>skein384\<close>; so do two successive
  single-buffer \<open>skein384Ctx\<close> updates on a freshly created context followed by
  \<open>finalizeSkein384Context\<close>; and so does one multi-segment \<open>skein384Ctx\<close> update with
  the two segments on such a context followed by \<open>finalizeSkein384Context\<close>. The updates
  return; the finalisation returns exactly when the one-shot function does (the digest
  must fit the output buffer).
\<close>

theorem incremental_hashing_equivalence:
  assumes "length a + length b < 2 ^ 64"
  shows "skein384_vec botan [a, b] [of_nat (length a), of_nat (length b)] digest
           = skein384 botan (a @ b) (of_nat (length a + length b)) digest
         \<and> (\<exists>s1 s2.
              skein384Ctx (fst (createSkein384Context s)) a (of_nat (length a))
                  (snd (createSkein384Context s)) = Inr s1
            \<and> skein384Ctx (fst (createSkein384Context s)) b (of_nat (length b)) s1 = Inr s2
            \<and> map_sum id (sec_data \<circ> fst)
                  (finalizeSkein384Context botan (fst (createSkein384Context s)) digestOut s2)
                = skein384 botan (a @ b) (of_nat (length a + length b)) (sec_data digestOut))
         \<and> (\<exists>s2.
              skein384Ctx_vec (fst (createSkein384Context s)) [a, b]
                  [of_nat (length a), of_nat (length b)] (snd (createSkein384Context s)) = Inr s2
            \<and> map_sum id (sec_data \<circ> fst)
                  (finalizeSkein384Context botan (fst (createSkein384Context s)) digestOut s2)
                = skein384 botan (a @ b) (of_nat (length a + length b)) (sec_data digestOut))"
proof -
  let ?h0 = "HashFunction_create ''Skein-512(384)''"
  let ?ha = "?h0\<lparr>absorbed := a\<rparr>"
  let ?hab = "?h0\<lparr>absorbed := a @ b\<rparr>"
  from assms have la: "length a < 2 ^ 64" and lb: "length b < 2 ^ 64" by simp_all
  have ua: "HashFunction_update ?h0 a (of_nat (length a)) = Inr ?ha"
    using update_exact [OF la, of ?h0] by (simp add: HashFunction_create_def)
  have ub: "HashFunction_update ?ha b (of_nat (length b)) = Inr ?hab"
    using update_exact [OF lb, of ?ha] by simp
  have uab: "HashFunction_update ?h0 (a @ b) (of_nat (length a + length b)) = Inr ?hab"
    using update_exact [of "a @ b" ?h0] assms by (simp add: HashFunction_create_def del: of_nat_add)
  have one: "skein384 botan (a @ b) (of_nat (length a + length b)) dg
               = map_sum id fst (HashFunction_final botan ?hab dg)" for dg
    by (simp add: skein384_def uab HashFunction_final_def Let_def del: of_nat_add)
  have loop: "skein384_loop ?h0 [a, b] [of_nat (length a), of_nat (length b)] 0 = Inr ?hab"
    by (subst skein384_loop.simps, simp add: ua, subst skein384_loop.simps, simp add: ub,
        subst skein384_loop.simps, simp)
  have vec: "skein384_vec botan [a, b] [of_nat (length a), of_nat (length b)] digest
               = skein384 botan (a @ b) (of_nat (length a + length b)) digest"
    by (simp add: skein384_vec_def loop one HashFunction_final_def Let_def del: of_nat_add)
  let ?ctx = "fst (createSkein384Context s)"
  let ?s0 = "snd (createSkein384Context s)"
  let ?k = "length s"
  let ?s1 = "?s0[?k := Some \<lparr>hash = Some ?ha\<rparr>]"
  let ?s2 = "?s1[?k := Some \<lparr>hash = Some ?hab\<rparr>]"
  have ctx: "?ctx = Addr ?k" and len0: "?k < length ?s0"
    by (simp_all add: createSkein384Context_def)
  have d1: "deref ?s1 ?ctx = Inr (?k, \<lparr>hash = Some ?ha\<rparr>)"
    using len0 by (simp add: ctx deref_update_same)
  have d2: "deref ?s2 ?ctx = Inr (?k, \<lparr>hash = Some ?hab\<rparr>)"
    using len0 by (simp add: ctx deref_update_same)
  have c1: "skein384Ctx ?ctx a (of_nat (length a)) ?s0 = Inr ?s1"
    by (simp add: skein384Ctx_live [OF deref_create] ua)
  have c2: "skein384Ctx ?ctx b (of_nat (length b)) ?s1 = Inr ?s2"
    using skein384Ctx_live [where h = ?ha and buf = b and n = "of_nat (length b)", OF d1]
    by (simp add: ub)
  have c3: "map_sum id (sec_data \<circ> fst) (finalizeSkein384Context botan ?ctx digestOut ?s2)
              = skein384 botan (a @ b) (of_nat (length a + length b)) (sec_data digestOut)"
    using finalize_digest [where h = ?hab and botan = botan and digestOut = digestOut, OF d2]
    by (simp add: one del: of_nat_add)
  let ?c0 = "\<lparr>hash = Some ?h0\<rparr>"
  let ?sv = "?s0[?k := Some (?c0\<lparr>hash := Some ?hab\<rparr>)]"
  have v1: "skein384Ctx_vec ?ctx [a, b] [of_nat (length a), of_nat (length b)] ?s0 = Inr ?sv"
    by (rule two_segments_ctx_loop [OF deref_create _ ua ub]) simp
  have dv: "deref ?sv ?ctx = Inr (?k, ?c0\<lparr>hash := Some ?hab\<rparr>)"
    using len0 by (simp add: ctx deref_update_same)
  have v2: "map_sum id (sec_data \<circ> fst) (finalizeSkein384Context botan ?ctx digestOut ?sv)
              = skein384 botan (a @ b) (of_nat (length a + length b)) (sec_data digestOut)"
    using finalize_digest [where h = ?hab and botan = botan and digestOut = digestOut, OF dv]
    by (simp add: one del: of_nat_add)
  from c1 c2 c3 have two: "\<exists>s1 s2.
              skein384Ctx ?ctx a (of_nat (length a)) ?s0 = Inr s1
            \<and> skein384Ctx ?ctx b (of_nat (length b)) s1 = Inr s2
            \<and> map_sum id (sec_data \<circ> fst) (finalizeSkein384Context botan ?ctx digestOut s2)
                = skein384 botan (a @ b) (of_nat (length a + length b)) (sec_data digestOut)"
    by blast
  from v1 v2 have seg: "\<exists>s2.
              skein384Ctx_vec ?ctx [a, b] [of_nat (length a), of_nat (length b)] ?s0 = Inr s2
            \<and> map_sum id (sec_data \<circ> fst) (finalizeSkein384Context botan ?ctx digestOut s2)
                = skein384 botan (a @ b) (of_nat (length a + length b)) (sec_data digestOut)"
    by blast
  from vec two seg show ?thesis by (intro conjI)
qed

theorem incremental_hashing_equivalence_witness:
  "length [1, 2 :: uint8_t] + length [3 :: uint8_t] < 2 ^ 64
   \<and> skein384_vec (\<lambda>name msg. take 48 (msg @ replicate 48 0)) [[1, 2], [3]] [2, 1] (replicate 48 9)
       = Inr ([1, 2, 3] @ replicate 45 0)
   \<and> skein384 (\<lambda>name msg. take 48 (msg @ replicate 48 0)) [1, 2, 3] 3 (replicate 48 9)
       = Inr ([1, 2, 3] @ replicate 45 0)
   \<and> (\<exists>s1 s2.
        skein384Ctx (Addr 0) [1, 2] 2 [Some \<lparr>hash = Some \<lparr>algo = ''Skein-512(384)'', absorbed = []\<rparr>\<rparr>]
          = Inr s1
      \<and> skein384Ctx (Addr 0) [3] 1 s1 = Inr s2
      \<and> map_sum id (sec_data \<circ> fst)
            (finalizeSkein384Context (\<lambda>name msg. take 48 (msg @ replicate 48 0)) (Addr 0)
               \<lparr>sec_data = replicate 48 9, sec_size = 0\<rparr> s2)
          = Inr ([1, 2, 3] @ replicate 45 0))
   \<and> (\<exists>s2.
        skein384Ctx_vec (Addr 0) [[1, 2], [3]] [2, 1]
            [Some \<lparr>hash = Some \<lparr>algo = ''Skein-512(384)'', absorbed = []\<rparr>\<rparr>]
          = Inr s2
      \<and> map_sum id (sec_data \<circ> fst)
            (finalizeSkein384Context (\<lambda>name msg. take 48 (msg @ replicate 48 0)) (Addr 0)
               \<lparr>sec_data = replicate 48 9, sec_size = 0\<rparr> s2)
          = Inr ([1, 2, 3] @ replicate 45 0))"
proof -
  have small: "length [1, 2 :: uint8_t] + length [3 :: uint8_t] < 2 ^ 64" by simp
  have one: "skein384 (\<lambda>name msg. take 48 (msg @ replicate 48 0)) [1, 2, 3] 3 (replicate 48 9)
       = Inr ([1, 2, 3] @ replicate 45 0)"
    by (simp add: skein384_def HashFunction_create_def HashFunction_update_def
        HashFunction_final_def)
  show ?thesis
    using small one
      incremental_hashing_equivalence [OF small,
        of "\<lambda>name msg. take 48 (msg @ replicate 48 0)" "replicate 48 9" "[]"
           "\<lparr>sec_data = replicate 48 9, sec_size = 0\<rparr>"]
    by (simp add: createSkein384Context_def HashFunction_create_def)
qed

section \<open>Re-initialisation (C4)\<close>

text \<open>
  C4. On a handle that points to a live context of this module (its hash object, if
  present, is a Skein-512(384) object, in whatever state), \<open>initializeSkein384Context\<close>
  returns the handle and leaves the context with a hash object in the initial state: it
  creates one if none is present and clears the present one otherwise. A subsequent update
  with \<open>d\<close> followed by finalize then yields what the one-shot \<open>skein384\<close> yields on \<open>d\<close>.
\<close>

theorem initialize_resets_context:
  assumes live: "deref s ctx = Inr (a, c)"
      and skein: "case hash c of None \<Rightarrow> True | Some h \<Rightarrow> algo h = ''Skein-512(384)''"
  shows "\<exists>s0. initializeSkein384Context ctx s = Inr (ctx, s0)
            \<and> deref s0 ctx = Inr (a, c\<lparr>hash := Some (HashFunction_create ''Skein-512(384)'')\<rparr>)
            \<and> (case skein384Ctx ctx d n s0 of
                  Inl e \<Rightarrow> Inl e
                | Inr s1 \<Rightarrow>
                    map_sum id (sec_data \<circ> fst) (finalizeSkein384Context botan ctx digestOut s1))
                = skein384 botan d n (sec_data digestOut)"
proof -
  let ?h0 = "HashFunction_create ''Skein-512(384)''"
  let ?c0 = "c\<lparr>hash := Some ?h0\<rparr>"
  let ?s0 = "s[a := Some ?c0]"
  from live have ctx: "ctx = Addr a" and len: "a < length s"
    by (simp_all add: deref_Inr_iff)
  have cleared: "HashFunction_clear h = ?h0" if "hash c = Some h" for h
    using skein that by (simp add: HashFunction_clear_def HashFunction_create_def)
  have init: "initializeSkein384Context ctx s = Inr (ctx, ?s0)"
  proof (cases "hash c")
    case None
    then show ?thesis using live by (simp add: initializeSkein384Context_def ctx)
  next
    case (Some h)
    then show ?thesis
      using live cleared [OF Some] by (simp add: initializeSkein384Context_def ctx)
  qed
  have d0: "deref ?s0 ctx = Inr (a, ?c0)"
    using len by (simp add: ctx deref_update_same)
  have "(case skein384Ctx ctx d n ?s0 of
           Inl e \<Rightarrow> Inl e
         | Inr s1 \<Rightarrow>
             map_sum id (sec_data \<circ> fst) (finalizeSkein384Context botan ctx digestOut s1))
        = skein384 botan d n (sec_data digestOut)"
    by (subst ctx_then_finalize [OF d0, where h = ?h0]) (simp_all add: skein384_as_update_final)
  with init d0 show ?thesis by blast
qed

theorem initialize_resets_context_witness:
  "deref [Some \<lparr>hash = Some \<lparr>algo = ''Skein-512(384)'', absorbed = [7, 7]\<rparr>\<rparr>] (Addr 0)
     = Inr (0, \<lparr>hash = Some \<lparr>algo = ''Skein-512(384)'', absorbed = [7, 7]\<rparr>\<rparr>)
   \<and> (case hash \<lparr>hash = Some \<lparr>algo = ''Skein-512(384)'', absorbed = [7, 7]\<rparr>\<rparr> of
         None \<Rightarrow> True
       | Some h \<Rightarrow> algo h = ''Skein-512(384)'')
   \<and> (\<exists>s0. initializeSkein384Context (Addr 0)
               [Some \<lparr>hash = Some \<lparr>algo = ''Skein-512(384)'', absorbed = [7, 7]\<rparr>\<rparr>]
             = Inr (Addr 0, s0)
          \<and> deref s0 (Addr 0)
             = Inr (0, \<lparr>hash = Some \<lparr>algo = ''Skein-512(384)'', absorbed = []\<rparr>\<rparr>)
          \<and> (case skein384Ctx (Addr 0) [1, 2, 3] 3 s0 of
                Inl e \<Rightarrow> Inl e
              | Inr s1 \<Rightarrow>
                  map_sum id (sec_data \<circ> fst)
                    (finalizeSkein384Context (\<lambda>name msg. take 48 (msg @ replicate 48 0)) (Addr 0)
                       \<lparr>sec_data = replicate 48 9, sec_size = 0\<rparr> s1))
             = Inr ([1, 2, 3] @ replicate 45 0))"
proof -
  let ?c = "\<lparr>hash = Some \<lparr>algo = ''Skein-512(384)'', absorbed = [7, 7]\<rparr>\<rparr>"
  have live: "deref [Some ?c] (Addr 0) = Inr (0, ?c)"
    by (simp add: deref_def)
  have skein: "case hash ?c of None \<Rightarrow> True | Some h \<Rightarrow> algo h = ''Skein-512(384)''"
    by simp
  have one: "skein384 (\<lambda>name msg. take 48 (msg @ replicate 48 0)) [1, 2, 3] 3 (replicate 48 9)
       = Inr ([1, 2, 3] @ replicate 45 0)"
    by (simp add: skein384_def HashFunction_create_def HashFunction_update_def
        HashFunction_final_def)
  show ?thesis
    using live skein one
      initialize_resets_context [OF live skein,
        where d = "[1, 2, 3]" and n = 3 and botan = "\<lambda>name msg. take 48 (msg @ replicate 48 0)"
          and digestOut = "\<lparr>sec_data = replicate 48 9, sec_size = 0\<rparr>"]
    by (simp add: HashFunction_create_def)
qed

section \<open>Digest size (C5)\<close>

text \<open>
  C5. Provided the Botan primitive named Skein-512(384) yields 384 bits, that is 48 bytes,
  every digest-producing operation writes exactly the first \<open>SHA384_DIGEST_SIZE = 48\<close>
  bytes of the output buffer, the digest, and leaves the rest of the buffer as it was: the
  single-buffer one-shot \<open>skein384\<close>, the multi-segment one-shot \<open>skein384\<close> on any
  number of segments (each length within its segment, a length for every segment), and
  \<open>finalizeSkein384Context\<close> and \<open>closeSkein384Context\<close> on a live context. The two
  context operations set the size field of the output array to \<open>SHA384_DIGEST_SIZE\<close>.
  The output buffer must have room for 48 bytes.
\<close>

theorem digest_is_384_bits:
  assumes out384: "\<forall>m. length (botan ''Skein-512(384)'' m) = 48"
  shows "SHA384_DIGEST_SIZE = 48
       \<and> (unat n \<le> length buf \<and> 48 \<le> length digest \<longrightarrow>
            (\<exists>out. skein384 botan buf n digest = Inr out
                \<and> length out = length digest
                \<and> take 48 out = botan ''Skein-512(384)'' (take (unat n) buf)
                \<and> drop 48 out = drop 48 digest))
       \<and> (length segs \<le> length lens
            \<and> list_all (\<lambda>(seg, n). unat n \<le> length seg) (zip segs lens)
            \<and> 48 \<le> length digest \<longrightarrow>
            (\<exists>out. skein384_vec botan segs lens digest = Inr out
                \<and> length out = length digest
                \<and> take 48 out
                    = botan ''Skein-512(384)''
                        (concat (map (\<lambda>(seg, n). take (unat n) seg) (zip segs lens)))
                \<and> drop 48 out = drop 48 digest))
       \<and> (deref s ctx = Inr (a, c) \<and> hash c = Some h \<and> algo h = ''Skein-512(384)''
            \<and> 48 \<le> length (sec_data digestOut) \<longrightarrow>
            (\<exists>out s'. finalizeSkein384Context botan ctx digestOut s
                    = Inr (digestOut\<lparr>sec_data := out, sec_size := SHA384_DIGEST_SIZE\<rparr>, s')
                \<and> length out = length (sec_data digestOut)
                \<and> take 48 out = botan ''Skein-512(384)'' (absorbed h)
                \<and> drop 48 out = drop 48 (sec_data digestOut)))
       \<and> (deref s ctx = Inr (a, c) \<and> hash c = Some h \<and> algo h = ''Skein-512(384)''
            \<and> 48 \<le> length (sec_data digestOut) \<longrightarrow>
            (\<exists>out s'. closeSkein384Context botan ctx digestOut s
                    = Inr (digestOut\<lparr>sec_data := out, sec_size := SHA384_DIGEST_SIZE\<rparr>, s')
                \<and> length out = length (sec_data digestOut)
                \<and> take 48 out = botan ''Skein-512(384)'' (absorbed h)
                \<and> drop 48 out = drop 48 (sec_data digestOut)))"
proof -
  have oneshot: "\<exists>out. skein384 botan buf n digest = Inr out
                \<and> length out = length digest
                \<and> take 48 out = botan ''Skein-512(384)'' (take (unat n) buf)
                \<and> drop 48 out = drop 48 digest"
    if "unat n \<le> length buf" and "48 \<le> length digest"
  proof -
    let ?h1 = "\<lparr>algo = ''Skein-512(384)'', absorbed = take (unat n) buf\<rparr>"
    have "length (botan (algo ?h1) (absorbed ?h1)) = 48" using out384 by simp
    from final_writes [where botan = botan and h = ?h1, OF this that(2)] obtain out' where
      "HashFunction_final botan ?h1 digest = Inr (out', HashFunction_clear ?h1)"
      "length out' = length digest"
      "take 48 out' = botan ''Skein-512(384)'' (take (unat n) buf)"
      "drop 48 out' = drop 48 digest"
      by auto
    moreover have "HashFunction_update (HashFunction_create ''Skein-512(384)'') buf n = Inr ?h1"
      using that(1) by (simp add: HashFunction_update_def HashFunction_create_def)
    ultimately show ?thesis by (simp add: skein384_def)
  qed
  have segments: "\<exists>out. skein384_vec botan segs lens digest = Inr out
                \<and> length out = length digest
                \<and> take 48 out
                    = botan ''Skein-512(384)''
                        (concat (map (\<lambda>(seg, n). take (unat n) seg) (zip segs lens)))
                \<and> drop 48 out = drop 48 digest"
    if "length segs \<le> length lens"
      and "list_all (\<lambda>(seg, n). unat n \<le> length seg) (zip segs lens)"
      and "48 \<le> length digest"
  proof -
    let ?m = "concat (map (\<lambda>(seg, n). take (unat n) seg) (zip segs lens))"
    let ?h1 = "\<lparr>algo = ''Skein-512(384)'', absorbed = ?m\<rparr>"
    have loop: "skein384_loop (HashFunction_create ''Skein-512(384)'') segs lens 0 = Inr ?h1"
      using skein384_loop_absorbs [OF that(1,2), of "HashFunction_create ''Skein-512(384)''" 0]
      by (simp add: HashFunction_create_def)
    have "length (botan (algo ?h1) (absorbed ?h1)) = 48" using out384 by simp
    from final_writes [where botan = botan and h = ?h1, OF this that(3)] obtain out' where
      "HashFunction_final botan ?h1 digest = Inr (out', HashFunction_clear ?h1)"
      "length out' = length digest"
      "take 48 out' = botan ''Skein-512(384)'' ?m"
      "drop 48 out' = drop 48 digest"
      by auto
    with loop show ?thesis by (simp add: skein384_vec_def)
  qed
  have ctxfin: "\<exists>out. HashFunction_final botan h (sec_data digestOut) = Inr (out, HashFunction_clear h)
                \<and> length out = length (sec_data digestOut)
                \<and> take 48 out = botan ''Skein-512(384)'' (absorbed h)
                \<and> drop 48 out = drop 48 (sec_data digestOut)"
    if "algo h = ''Skein-512(384)''" and "48 \<le> length (sec_data digestOut)"
  proof -
    have "length (botan (algo h) (absorbed h)) = 48" using out384 that(1) by simp
    from final_writes [where botan = botan and h = h, OF this that(2)] show ?thesis
      using that(1) by simp
  qed
  have fin: "\<exists>out s'. finalizeSkein384Context botan ctx digestOut s
                    = Inr (digestOut\<lparr>sec_data := out, sec_size := SHA384_DIGEST_SIZE\<rparr>, s')
                \<and> length out = length (sec_data digestOut)
                \<and> take 48 out = botan ''Skein-512(384)'' (absorbed h)
                \<and> drop 48 out = drop 48 (sec_data digestOut)"
    if "deref s ctx = Inr (a, c)" and "hash c = Some h" and "algo h = ''Skein-512(384)''"
      and "48 \<le> length (sec_data digestOut)"
  proof -
    from ctxfin [OF that(3,4)] obtain out where
      o: "HashFunction_final botan h (sec_data digestOut) = Inr (out, HashFunction_clear h)"
      and rest: "length out = length (sec_data digestOut)"
        "take 48 out = botan ''Skein-512(384)'' (absorbed h)"
        "drop 48 out = drop 48 (sec_data digestOut)"
      by blast
    have "finalizeSkein384Context botan ctx digestOut s
            = Inr (digestOut\<lparr>sec_data := out, sec_size := SHA384_DIGEST_SIZE\<rparr>,
                   s[a := Some (c\<lparr>hash := Some (HashFunction_clear h)\<rparr>)])"
      by (simp add: finalize_live [OF that(1,2)] o)
    with rest show ?thesis by blast
  qed
  have cls: "\<exists>out s'. closeSkein384Context botan ctx digestOut s
                    = Inr (digestOut\<lparr>sec_data := out, sec_size := SHA384_DIGEST_SIZE\<rparr>, s')
                \<and> length out = length (sec_data digestOut)
                \<and> take 48 out = botan ''Skein-512(384)'' (absorbed h)
                \<and> drop 48 out = drop 48 (sec_data digestOut)"
    if "deref s ctx = Inr (a, c)" and "hash c = Some h" and "algo h = ''Skein-512(384)''"
      and "48 \<le> length (sec_data digestOut)"
  proof -
    from ctxfin [OF that(3,4)] obtain out where
      o: "HashFunction_final botan h (sec_data digestOut) = Inr (out, HashFunction_clear h)"
      and rest: "length out = length (sec_data digestOut)"
        "take 48 out = botan ''Skein-512(384)'' (absorbed h)"
        "drop 48 out = drop 48 (sec_data digestOut)"
      by blast
    from that(1) have ctx: "ctx = Addr a" and len: "a < length s"
      by (simp_all add: deref_Inr_iff)
    have "closeSkein384Context botan ctx digestOut s
            = Inr (digestOut\<lparr>sec_data := out, sec_size := SHA384_DIGEST_SIZE\<rparr>, s[a := None])"
      using that(1,2) len
      by (simp add: closeSkein384Context_def hash_ptr_def o ctx deref_update_same)
    with rest show ?thesis by blast
  qed
  show ?thesis
    using oneshot segments fin cls by (simp add: SHA384_DIGEST_SIZE_def)
qed

theorem digest_is_384_bits_witness:
  "(\<forall>m. length (take 48 (m @ replicate 48 (0 :: uint8_t))) = 48)
   \<and> unat (3 :: uint64_t) \<le> length [1, 2, 3 :: uint8_t]
   \<and> 48 \<le> length (replicate 64 (9 :: uint8_t))
   \<and> (\<exists>out. skein384 (\<lambda>name msg. take 48 (msg @ replicate 48 0)) [1, 2, 3] 3 (replicate 64 9) = Inr out
          \<and> length out = 64
          \<and> take 48 out = [1, 2, 3] @ replicate 45 0
          \<and> drop 48 out = replicate 16 9)
   \<and> length [[1, 2, 5], [3 :: uint8_t]] \<le> length [2, 1 :: uint64_t]
   \<and> list_all (\<lambda>(seg, n). unat n \<le> length seg) (zip [[1, 2, 5], [3 :: uint8_t]] [2, 1 :: uint64_t])
   \<and> (\<exists>out. skein384_vec (\<lambda>name msg. take 48 (msg @ replicate 48 0)) [[1, 2, 5], [3]] [2, 1]
                 (replicate 64 9) = Inr out
          \<and> length out = 64
          \<and> take 48 out = [1, 2, 3] @ replicate 45 0
          \<and> drop 48 out = replicate 16 9)
   \<and> deref [Some \<lparr>hash = Some \<lparr>algo = ''Skein-512(384)'', absorbed = [7, 7]\<rparr>\<rparr>] (Addr 0)
       = Inr (0, \<lparr>hash = Some \<lparr>algo = ''Skein-512(384)'', absorbed = [7, 7]\<rparr>\<rparr>)
   \<and> (\<exists>out s'. finalizeSkein384Context (\<lambda>name msg. take 48 (msg @ replicate 48 0)) (Addr 0)
                  \<lparr>sec_data = replicate 64 9, sec_size = 0\<rparr>
                  [Some \<lparr>hash = Some \<lparr>algo = ''Skein-512(384)'', absorbed = [7, 7]\<rparr>\<rparr>]
                = Inr (\<lparr>sec_data = out, sec_size = 48\<rparr>, s')
          \<and> take 48 out = [7, 7] @ replicate 46 0
          \<and> drop 48 out = replicate 16 9)
   \<and> (\<exists>out s'. closeSkein384Context (\<lambda>name msg. take 48 (msg @ replicate 48 0)) (Addr 0)
                  \<lparr>sec_data = replicate 64 9, sec_size = 0\<rparr>
                  [Some \<lparr>hash = Some \<lparr>algo = ''Skein-512(384)'', absorbed = [7, 7]\<rparr>\<rparr>]
                = Inr (\<lparr>sec_data = out, sec_size = 48\<rparr>, s')
          \<and> take 48 out = [7, 7] @ replicate 46 0
          \<and> drop 48 out = replicate 16 9)"
proof -
  let ?b = "\<lambda>(name :: string) (msg :: bytes). take 48 (msg @ replicate 48 (0 :: uint8_t))"
  let ?h = "\<lparr>algo = ''Skein-512(384)'', absorbed = [7, 7 :: uint8_t]\<rparr>"
  let ?d = "\<lparr>sec_data = replicate 64 (9 :: uint8_t), sec_size = 0\<rparr>"
  have out384: "\<forall>m. length (?b ''Skein-512(384)'' m) = 48" by (simp add: min_def)
  have fits: "unat (3 :: uint64_t) \<le> length [1, 2, 3 :: uint8_t]" by simp
  have room: "48 \<le> length (replicate 64 (9 :: uint8_t))" by simp
  have live: "deref [Some \<lparr>hash = Some ?h\<rparr>] (Addr 0) = Inr (0, \<lparr>hash = Some ?h\<rparr>)"
    by (simp add: deref_def)
  have ctx: "deref [Some \<lparr>hash = Some ?h\<rparr>] (Addr 0) = Inr (0, \<lparr>hash = Some ?h\<rparr>)
      \<and> hash \<lparr>hash = Some ?h\<rparr> = Some ?h \<and> algo ?h = ''Skein-512(384)''
      \<and> 48 \<le> length (sec_data ?d)"
    using live by simp
  note T = digest_is_384_bits [OF out384,
        where n = 3 and buf = "[1, 2, 3]" and digest = "replicate 64 9"
          and s = "[Some \<lparr>hash = Some ?h\<rparr>]" and ctx = "Addr 0" and a = 0
          and c = "\<lparr>hash = Some ?h\<rparr>" and h = ?h and digestOut = ?d
          and segs = "[[1, 2, 5], [3]]" and lens = "[2, 1]"]
  have lens: "length [[1, 2, 5], [3 :: uint8_t]] \<le> length [2, 1 :: uint64_t]" by simp
  have segfit: "list_all (\<lambda>(seg, n). unat n \<le> length seg)
                  (zip [[1, 2, 5], [3 :: uint8_t]] [2, 1 :: uint64_t])"
    by simp
  from T lens segfit room obtain out0 where
    o0: "skein384_vec ?b [[1, 2, 5], [3]] [2, 1] (replicate 64 9) = Inr out0"
      "length out0 = length (replicate 64 (9 :: uint8_t))"
      "take 48 out0 = ?b ''Skein-512(384)''
         (concat (map (\<lambda>(seg, n). take (unat n) seg)
            (zip [[1, 2, 5], [3 :: uint8_t]] [2, 1 :: uint64_t])))"
      "drop 48 out0 = drop 48 (replicate 64 9)"
    by blast
  have e0: "\<exists>out. skein384_vec ?b [[1, 2, 5], [3]] [2, 1] (replicate 64 9) = Inr out
          \<and> length out = 64
          \<and> take 48 out = [1, 2, 3] @ replicate 45 0
          \<and> drop 48 out = replicate 16 9"
    using o0 by simp
  from T fits room obtain out1 where
    o1: "skein384 ?b [1, 2, 3] 3 (replicate 64 9) = Inr out1"
      "length out1 = length (replicate 64 (9 :: uint8_t))"
      "take 48 out1 = ?b ''Skein-512(384)'' (take (unat (3 :: uint64_t)) [1, 2, 3])"
      "drop 48 out1 = drop 48 (replicate 64 9)"
    by blast
  from T ctx obtain out2 s2 where
    o2: "finalizeSkein384Context ?b (Addr 0) ?d [Some \<lparr>hash = Some ?h\<rparr>]
           = Inr (?d\<lparr>sec_data := out2, sec_size := SHA384_DIGEST_SIZE\<rparr>, s2)"
      "take 48 out2 = ?b ''Skein-512(384)'' (absorbed ?h)"
      "drop 48 out2 = drop 48 (sec_data ?d)"
    by blast
  from T ctx obtain out3 s3 where
    o3: "closeSkein384Context ?b (Addr 0) ?d [Some \<lparr>hash = Some ?h\<rparr>]
           = Inr (?d\<lparr>sec_data := out3, sec_size := SHA384_DIGEST_SIZE\<rparr>, s3)"
      "take 48 out3 = ?b ''Skein-512(384)'' (absorbed ?h)"
      "drop 48 out3 = drop 48 (sec_data ?d)"
    by blast
  have e1: "\<exists>out. skein384 ?b [1, 2, 3] 3 (replicate 64 9) = Inr out
          \<and> length out = 64
          \<and> take 48 out = [1, 2, 3] @ replicate 45 0
          \<and> drop 48 out = replicate 16 9"
    using o1 by simp
  have e2: "\<exists>out s'. finalizeSkein384Context ?b (Addr 0) ?d [Some \<lparr>hash = Some ?h\<rparr>]
                = Inr (\<lparr>sec_data = out, sec_size = 48\<rparr>, s')
          \<and> take 48 out = [7, 7] @ replicate 46 0
          \<and> drop 48 out = replicate 16 9"
    using o2 by (simp add: SHA384_DIGEST_SIZE_def)
  have e3: "\<exists>out s'. closeSkein384Context ?b (Addr 0) ?d [Some \<lparr>hash = Some ?h\<rparr>]
                = Inr (\<lparr>sec_data = out, sec_size = 48\<rparr>, s')
          \<and> take 48 out = [7, 7] @ replicate 46 0
          \<and> drop 48 out = replicate 16 9"
    using o3 by (simp add: SHA384_DIGEST_SIZE_def)
  from out384 fits room live lens segfit e0 e1 e2 e3 show ?thesis by (intro conjI)
qed

section \<open>The control methods of the callback (C6)\<close>

text \<open>
  C6. With a stored pointer to a live queue, each of the eight control methods
  \<open>enableZrtp\<close>, \<open>SASVerified\<close>, \<open>resetSASVerified\<close>, \<open>goClearOk\<close>,
  \<open>requestGoClear\<close>, \<open>setSigsSecret\<close>, \<open>setSrtpsSecret\<close> and \<open>setOtherSecret\<close>
  invokes exactly one method on that queue, the corresponding one, with the arguments it
  was given; the callback object and every other queue are unchanged.
\<close>

theorem control_methods_pass_through:
  assumes live: "deref w (zrtpQueue this) = Inr (a, q)"
  shows "enableZrtp this onOff w
           = Inr (this, w[a := Some (q\<lparr>received := received q @ [Q_setEnableZrtp onOff]\<rparr>)])
       \<and> SASVerified this w
           = Inr (this, w[a := Some (q\<lparr>received := received q @ [Q_SASVerified]\<rparr>)])
       \<and> resetSASVerified this w
           = Inr (this, w[a := Some (q\<lparr>received := received q @ [Q_resetSASVerified]\<rparr>)])
       \<and> goClearOk this w
           = Inr (this, w[a := Some (q\<lparr>received := received q @ [Q_goClearOk]\<rparr>)])
       \<and> requestGoClear this w
           = Inr (this, w[a := Some (q\<lparr>received := received q @ [Q_requestGoClear]\<rparr>)])
       \<and> setSigsSecret this secret w
           = Inr (this, w[a := Some (q\<lparr>received := received q @ [Q_setSigsSecret secret]\<rparr>)])
       \<and> setSrtpsSecret this secret w
           = Inr (this, w[a := Some (q\<lparr>received := received q @ [Q_setSrtpsSecret secret]\<rparr>)])
       \<and> setOtherSecret this secret len w
           = Inr (this, w[a := Some (q\<lparr>received := received q @ [Q_setOtherSecret secret len]\<rparr>)])"
  unfolding enableZrtp_def SASVerified_def resetSASVerified_def goClearOk_def requestGoClear_def
    setSigsSecret_def setSrtpsSecret_def setOtherSecret_def
  by (simp only: via_zrtpQueue_live [OF live] simp_thms)

theorem control_methods_pass_through_witness:
  "deref [Some \<lparr>started = True, helloHash = ''ab'', sasData = ''cd'', received = []\<rparr>]
      (zrtpQueue \<lparr>zrtpQueue = Addr 0\<rparr>)
     = Inr (0, \<lparr>started = True, helloHash = ''ab'', sasData = ''cd'', received = []\<rparr>)
   \<and> enableZrtp \<lparr>zrtpQueue = Addr 0\<rparr> True
        [Some \<lparr>started = True, helloHash = ''ab'', sasData = ''cd'', received = []\<rparr>]
       = Inr (\<lparr>zrtpQueue = Addr 0\<rparr>,
              [Some \<lparr>started = True, helloHash = ''ab'', sasData = ''cd'',
                      received = [Q_setEnableZrtp True]\<rparr>])
   \<and> setOtherSecret \<lparr>zrtpQueue = Addr 0\<rparr> (Addr 5) 32
        [Some \<lparr>started = True, helloHash = ''ab'', sasData = ''cd'', received = []\<rparr>]
       = Inr (\<lparr>zrtpQueue = Addr 0\<rparr>,
              [Some \<lparr>started = True, helloHash = ''ab'', sasData = ''cd'',
                      received = [Q_setOtherSecret (Addr 5) 32]\<rparr>])"
proof -
  let ?q = "\<lparr>started = True, helloHash = ''ab'', sasData = ''cd'', received = []\<rparr>"
  have live: "deref [Some ?q] (zrtpQueue \<lparr>zrtpQueue = Addr 0\<rparr>) = Inr (0, ?q)"
    by (simp add: deref_def)
  show ?thesis
    using live
      control_methods_pass_through [OF live, where onOff = True and secret = "Addr 5" and len = 32]
    by simp
qed

section \<open>Go-clear (C7)\<close>

text \<open>
  C7. In the model of the go-clear exchange: an endpoint in secure mode that requests
  go-clear sends the GoClear message and stops protecting in the same step. An endpoint
  that protects keeps protecting over every sequence of events that contains neither its
  user's confirmation nor a request of its own; on the peer's GoClear it only notifies
  the host by \<open>confirmGoClear\<close>. It stops protecting once the user has confirmed.
\<close>

theorem go_clear_asymmetry:
  "(state e = SecureOn \<longrightarrow>
      \<not> protecting (fst (gc_step e UserRequestGoClear))
      \<and> snd (gc_step e UserRequestGoClear) = [SendGoClear])
   \<and> (protecting e \<and> UserGoClearOk \<notin> set evs \<and> UserRequestGoClear \<notin> set evs \<longrightarrow>
        protecting (gc_run e evs))
   \<and> (state e = SecureOn \<longrightarrow>
        snd (gc_step e PeerGoClear) = [NotifyConfirmGoClear]
        \<and> protecting (fst (gc_step e PeerGoClear)) = protecting e
        \<and> \<not> protecting (gc_run e [PeerGoClear, UserGoClearOk]))"
  using gc_run_keeps_protecting [of e evs] by simp

theorem go_clear_asymmetry_witness:
  "state secure_endpoint = SecureOn
   \<and> protecting secure_endpoint
   \<and> UserGoClearOk \<notin> set [PeerGoClear, PeerClearAck, PeerGoClear]
   \<and> UserRequestGoClear \<notin> set [PeerGoClear, PeerClearAck, PeerGoClear]
   \<and> \<not> protecting (fst (gc_step secure_endpoint UserRequestGoClear))
   \<and> protecting (gc_run secure_endpoint [PeerGoClear, PeerClearAck, PeerGoClear])
   \<and> \<not> protecting (gc_run secure_endpoint [PeerGoClear, UserGoClearOk])"
  using go_clear_asymmetry [of secure_endpoint "[PeerGoClear, PeerClearAck, PeerGoClear]"]
  by (simp add: secure_endpoint_def)

section \<open>Creation and initialisation of a context (C9)\<close>

text \<open>
  C9. \<open>createSkein384Context\<close> returns a non-null handle to a new context whose hash
  object is a Skein-512(384) object in its initial state. Without any call of
  \<open>initializeSkein384Context\<close>, an update on it returns and a following finalize yields
  what the one-shot \<open>skein384\<close> yields on the same data; a finalize right away yields the
  digest of the empty message. \<open>initializeSkein384Context\<close> on a null handle returns
  null and touches nothing; whenever it returns, it returns the handle it was passed, and
  it does return on every live handle.
\<close>

theorem create_and_initialize_handles:
  "fst (createSkein384Context s) \<noteq> nullptr
   \<and> deref (snd (createSkein384Context s)) (fst (createSkein384Context s))
       = Inr (length s, \<lparr>hash = Some (HashFunction_create ''Skein-512(384)'')\<rparr>)
   \<and> (unat n \<le> length d \<longrightarrow>
        (\<exists>s1. skein384Ctx (fst (createSkein384Context s)) d n (snd (createSkein384Context s)) = Inr s1
           \<and> map_sum id (sec_data \<circ> fst)
                (finalizeSkein384Context botan (fst (createSkein384Context s)) digestOut s1)
               = skein384 botan d n (sec_data digestOut)))
   \<and> map_sum id (sec_data \<circ> fst)
        (finalizeSkein384Context botan (fst (createSkein384Context s)) digestOut
           (snd (createSkein384Context s)))
       = skein384 botan [] 0 (sec_data digestOut)
   \<and> initializeSkein384Context nullptr t = Inr (nullptr, t)
   \<and> (\<forall>p t'. initializeSkein384Context ctx t = Inr (p, t') \<longrightarrow> p = ctx)
   \<and> ((\<exists>a c. deref t ctx = Inr (a, c)) \<longrightarrow>
        (\<exists>t'. initializeSkein384Context ctx t = Inr (ctx, t')))"
proof -
  let ?h0 = "HashFunction_create ''Skein-512(384)''"
  let ?ctx = "fst (createSkein384Context s)"
  let ?s0 = "snd (createSkein384Context s)"
  have nonnull: "?ctx \<noteq> nullptr"
    by (simp add: createSkein384Context_def)
  note live = deref_create [of s]
  have h0: "hash \<lparr>hash = Some ?h0\<rparr> = Some ?h0" by simp
  have seq: "\<exists>s1. skein384Ctx ?ctx d n ?s0 = Inr s1
           \<and> map_sum id (sec_data \<circ> fst) (finalizeSkein384Context botan ?ctx digestOut s1)
               = skein384 botan d n (sec_data digestOut)"
    if fits: "unat n \<le> length d"
  proof -
    from fits obtain h' where u: "HashFunction_update ?h0 d n = Inr h'"
      by (simp add: HashFunction_update_def)
    then obtain s1 where c: "skein384Ctx ?ctx d n ?s0 = Inr s1"
      by (simp add: skein384Ctx_live [OF live h0])
    from ctx_then_finalize
           [OF live h0, where buf = d and n = n and botan = botan and digestOut = digestOut] c u
    have "map_sum id (sec_data \<circ> fst) (finalizeSkein384Context botan ?ctx digestOut s1)
            = skein384 botan d n (sec_data digestOut)"
      by (simp add: skein384_as_update_final)
    with c show ?thesis by blast
  qed
  have direct: "map_sum id (sec_data \<circ> fst) (finalizeSkein384Context botan ?ctx digestOut ?s0)
                  = skein384 botan [] 0 (sec_data digestOut)"
    by (simp add: finalize_digest [OF live h0] skein384_as_update_final HashFunction_update_def
        HashFunction_create_def)
  have null: "initializeSkein384Context nullptr t = Inr (nullptr, t)"
    by (simp add: initializeSkein384Context_def)
  have same: "\<forall>p t'. initializeSkein384Context ctx t = Inr (p, t') \<longrightarrow> p = ctx"
    by (auto simp: initializeSkein384Context_def split: if_splits sum.splits option.splits)
  have returns: "\<exists>t'. initializeSkein384Context ctx t = Inr (ctx, t')"
    if "\<exists>a c. deref t ctx = Inr (a, c)"
  proof -
    from that obtain a c where d: "deref t ctx = Inr (a, c)" by blast
    then have "ctx \<noteq> nullptr" by (simp add: deref_Inr_iff)
    with d show ?thesis
      by (cases "hash c") (simp_all add: initializeSkein384Context_def)
  qed
  from nonnull live seq direct null same returns show ?thesis by blast
qed

theorem create_and_initialize_handles_witness:
  "fst (createSkein384Context []) = Addr 0
   \<and> unat (3 :: uint64_t) \<le> length [1, 2, 3 :: uint8_t]
   \<and> (\<exists>s1. skein384Ctx (Addr 0) [1, 2, 3] 3 (snd (createSkein384Context [])) = Inr s1
        \<and> map_sum id (sec_data \<circ> fst)
             (finalizeSkein384Context (\<lambda>name msg. take 48 (msg @ replicate 48 0)) (Addr 0)
                \<lparr>sec_data = replicate 48 9, sec_size = 0\<rparr> s1)
            = Inr ([1, 2, 3] @ replicate 45 0))
   \<and> (\<exists>a c. deref [Some \<lparr>hash = Some \<lparr>algo = ''Skein-512(384)'', absorbed = [7, 7]\<rparr>\<rparr>] (Addr 0)
               = Inr (a, c))
   \<and> (\<exists>t'. initializeSkein384Context (Addr 0)
               [Some \<lparr>hash = Some \<lparr>algo = ''Skein-512(384)'', absorbed = [7, 7]\<rparr>\<rparr>]
             = Inr (Addr 0, t'))"
proof -
  let ?t = "[Some \<lparr>hash = Some \<lparr>algo = ''Skein-512(384)'', absorbed = [7, 7 :: uint8_t]\<rparr>\<rparr>]"
  have fits: "unat (3 :: uint64_t) \<le> length [1, 2, 3 :: uint8_t]" by simp
  have one: "skein384 (\<lambda>name msg. take 48 (msg @ replicate 48 0)) [1, 2, 3] 3 (replicate 48 9)
       = Inr ([1, 2, 3] @ replicate 45 0)"
    by (simp add: skein384_def HashFunction_create_def HashFunction_update_def
        HashFunction_final_def)
  have live: "\<exists>a c. deref ?t (Addr 0) = Inr (a, c)"
    by (simp add: deref_def)
  note T = create_and_initialize_handles
        [where s = "[]" and n = 3 and d = "[1, 2, 3]"
           and botan = "\<lambda>name msg. take 48 (msg @ replicate 48 0)"
           and digestOut = "\<lparr>sec_data = replicate 48 9, sec_size = 0\<rparr>"
           and ctx = "Addr 0" and t = ?t]
  from T live have init: "\<exists>t'. initializeSkein384Context (Addr 0) ?t = Inr (Addr 0, t')"
    by blast
  show ?thesis
    using fits one live init T by (simp add: createSkein384Context_def)
qed

section \<open>The destructor of the callback (C10)\<close>

text \<open>
  C10. The destructor leaves the store of queues as it is, and the stored pointer still
  holds the queue the constructor was given: nothing is deleted, nothing is changed, and
  the pointer is not set to null.
\<close>

theorem destructor_leaves_queue_untouched:
  "snd (ZrtpUserCallback_dtor this w) = w
   \<and> zrtpQueue (fst (ZrtpUserCallback_dtor this w)) = zrtpQueue this
   \<and> ZrtpUserCallback_dtor (ZrtpUserCallback_ctor queue) w = (\<lparr>zrtpQueue = queue\<rparr>, w)"
  by (simp add: ZrtpUserCallback_dtor_def ZrtpUserCallback_ctor_def)

end
